theory Spec2Isabelle
  imports Main "HOL-Library.Word" "HOL-Library.Signed_Division" "HOL-Library.Multiset"
begin

unbundle bit_operations_syntax

section \<open>Data model of package compass\<close>

text \<open>
  Go's \<open>int\<close> is a 64-bit two's complement integer on the 64-bit targets the program is
  built for; \<open>+\<close> wraps around and \<open>%\<close> is the remainder of the division that truncates
  towards zero. \<open>RingGroup\<close> is declared as \<open>uint8\<close>; its comparison \<open><\<close> is the unsigned
  one, which is the order of \<open>8 word\<close>.
\<close>

type_synonym go_int = "64 word"

text \<open>
  The remainder operator of Go on \<open>int\<close>. The library's \<open>smod\<close> on \<open>int\<close> is
  \<open>sgn k * (\<bar>k\<bar> mod \<bar>l\<bar>)\<close>, the remainder of the truncating division. The source only
  ever divides by the constant 6, so the division-by-zero panic of Go has no branch here.
\<close>

definition go_rem :: "go_int \<Rightarrow> go_int \<Rightarrow> go_int" where
  "go_rem x y = word_of_int (sint x smod sint y)"

record Ring =
  Location :: go_int
  Speed :: go_int

type_synonym RingGroup = "8 word"

text \<open>The constants 0b100, 0b010, 0b001 and their pairwise unions.\<close>

definition OuterRingGroup :: RingGroup where
  "OuterRingGroup = 4"

definition MiddleRingGroup :: RingGroup where
  "MiddleRingGroup = 2"

definition InnerRingGroup :: RingGroup where
  "InnerRingGroup = 1"

definition OuterMiddleRingGroup :: RingGroup where
  "OuterMiddleRingGroup = OuterRingGroup OR MiddleRingGroup"

definition OuterInnerRingGroup :: RingGroup where
  "OuterInnerRingGroup = OuterRingGroup OR InnerRingGroup"

definition MiddleInnerRingGroup :: RingGroup where
  "MiddleInnerRingGroup = MiddleRingGroup OR InnerRingGroup"

text \<open>\<open>RingGroup.Name\<close>: the switch tries its cases in the order of the source.\<close>

definition Name :: "RingGroup \<Rightarrow> string" where
  "Name rg =
     (if rg = OuterRingGroup then ''Outer''
      else if rg = MiddleRingGroup then ''Middle''
      else if rg = InnerRingGroup then ''Inner''
      else if rg = OuterMiddleRingGroup then ''OuterMiddle''
      else if rg = OuterInnerRingGroup then ''OuterInner''
      else if rg = MiddleInnerRingGroup then ''MiddleInner''
      else '''')"

text \<open>\<open>RingGroup.ShortName\<close>.\<close>

definition ShortName :: "RingGroup \<Rightarrow> string" where
  "ShortName rg =
     (if rg = OuterRingGroup then ''o''
      else if rg = MiddleRingGroup then ''m''
      else if rg = InnerRingGroup then ''i''
      else if rg = OuterMiddleRingGroup then ''om''
      else if rg = OuterInnerRingGroup then ''oi''
      else if rg = MiddleInnerRingGroup then ''mi''
      else '''')"

text \<open>
  The struct \<open>Compass\<close>. The field \<open>RingGroups\<close> is a slice; the record leaves its
  representation open, so that the same record serves the value view (the slice as the
  list of its elements, type \<open>CompassV\<close>) and the memory view further down (the slice as
  a header pointing into a backing array).
\<close>

record 'g Compass =
  InnerRing :: Ring
  MiddleRing :: Ring
  OuterRing :: Ring
  RingGroups :: 'g

type_synonym CompassV = "RingGroup list Compass"

section \<open>Operations on values\<close>

text \<open>
  A receiver of type \<open>*Compass\<close> is an option: \<open>None\<close> is the nil pointer.

  \<open>Compass.IsRingGroupSupported\<close>: the range loop returns at the first equal element.
\<close>

fun supported_loop :: "RingGroup list \<Rightarrow> RingGroup \<Rightarrow> bool" where
  "supported_loop [] rg = False"
| "supported_loop (supportedRG # rest) rg =
     (if supportedRG = rg then True else supported_loop rest rg)"

definition IsRingGroupSupported :: "CompassV option \<Rightarrow> RingGroup \<Rightarrow> bool" where
  "IsRingGroupSupported compass rg =
     (case compass of
        None \<Rightarrow> False
      | Some c \<Rightarrow> supported_loop (RingGroups c) rg)"

text \<open>
  \<open>sort.Slice\<close> belongs to Go's standard library: it permutes the slice so that it is
  ordered by the given \<open>less\<close>, here \<open>rgs[i] < rgs[j]\<close> on \<open>uint8\<close>. It is not stable, but
  on a linear order of plain values the sorted arrangement of the elements is unique
  (lemma \<open>sort_Slice_unique\<close> below), so the insertion sort of the library computes it.
\<close>

definition sort_Slice :: "RingGroup list \<Rightarrow> RingGroup list" where
  "sort_Slice rgs = sort rgs"

text \<open>
  The deduplication loop of \<open>Standardize\<close>: the first argument is \<open>deduplicatedRGs\<close>, the
  second what is left of the range over \<open>rgs\<close>.
\<close>

fun dedup_loop :: "RingGroup list \<Rightarrow> RingGroup list \<Rightarrow> RingGroup list" where
  "dedup_loop deduplicatedRGs [] = deduplicatedRGs"
| "dedup_loop deduplicatedRGs (rg # rest) =
     (if length deduplicatedRGs > 0 \<and> last deduplicatedRGs = rg
      then dedup_loop deduplicatedRGs rest
      else dedup_loop (deduplicatedRGs @ [rg]) rest)"

text \<open>\<open>Compass.Standardize\<close>.\<close>

definition Standardize :: "CompassV option \<Rightarrow> CompassV option" where
  "Standardize compass =
     (case compass of
        None \<Rightarrow> None
      | Some c \<Rightarrow>
          (let rgs = sort_Slice (RingGroups c);
               deduplicatedRGs = dedup_loop [] rgs
           in Some \<lparr>
                InnerRing = \<lparr>
                  Location = go_rem (go_rem (Location (InnerRing c)) 6 + 6) 6,
                  Speed = go_rem (Speed (InnerRing c)) 6\<rparr>,
                MiddleRing = \<lparr>
                  Location = go_rem (go_rem (Location (MiddleRing c)) 6 + 6) 6,
                  Speed = go_rem (Speed (MiddleRing c)) 6\<rparr>,
                OuterRing = \<lparr>
                  Location = go_rem (go_rem (Location (OuterRing c)) 6 + 6) 6,
                  Speed = go_rem (Speed (OuterRing c)) 6\<rparr>,
                RingGroups = deduplicatedRGs\<rparr>))"

text \<open>
  The verbs of \<open>fmt.Sprintf\<close> the source uses: \<open>%d\<close> prints a decimal number with a
  minus sign when it is negative, \<open>%+d\<close> always prints a sign.
\<close>

definition digit_char :: "nat \<Rightarrow> char" where
  "digit_char d = ''0123456789'' ! d"

fun decimal :: "nat \<Rightarrow> string" where
  "decimal n =
     (if n < 10 then [digit_char n] else decimal (n div 10) @ [digit_char (n mod 10)])"

declare decimal.simps [simp del]

definition fmt_d :: "go_int \<Rightarrow> string" where
  "fmt_d x =
     (if sint x < 0 then CHR ''-'' # decimal (nat (- sint x)) else decimal (nat (sint x)))"

definition fmt_plus_d :: "go_int \<Rightarrow> string" where
  "fmt_plus_d x =
     (if sint x < 0 then CHR ''-'' # decimal (nat (- sint x))
      else CHR ''+'' # decimal (nat (sint x)))"

text \<open>\<open>strings.Join\<close>.\<close>

fun Join :: "string list \<Rightarrow> string \<Rightarrow> string" where
  "Join [] sep = ''''"
| "Join [s] sep = s"
| "Join (s # t # rest) sep = s @ sep @ Join (t # rest) sep"

text \<open>The run-time panics of Go the source could run into, as values.\<close>

datatype error = NilDereference | IndexOutOfRange

text \<open>
  \<open>Compass.String\<close>. Dereferencing \<open>std\<close> would panic if \<open>Standardize\<close> returned nil;
  the model keeps that branch as an error value. The loop that fills \<open>rgStrs\<close> stores
  the short name of the group at each index: it is a map over the groups.
\<close>

definition String :: "CompassV option \<Rightarrow> error + string" where
  "String compass =
     (case compass of
        None \<Rightarrow> Inr ''''
      | Some c \<Rightarrow>
          (case Standardize (Some c) of
             None \<Rightarrow> Inl NilDereference
           | Some std \<Rightarrow>
               (let rgStrs = map ShortName (RingGroups std);
                    rgsStr = Join rgStrs '',''
                in Inr (fmt_d (Location (OuterRing std)) @ fmt_plus_d (Speed (OuterRing std)) @ '','' @
                        fmt_d (Location (MiddleRing std)) @ fmt_plus_d (Speed (MiddleRing std)) @ '','' @
                        fmt_d (Location (InnerRing std)) @ fmt_plus_d (Speed (InnerRing std)) @ ''/'' @
                        rgsStr))))"

text \<open>\<open>Compass.Validate\<close> returns the nil error, whatever the receiver.\<close>

definition Validate :: "CompassV option \<Rightarrow> string option" where
  "Validate compass = None"

section \<open>The specification's words\<close>

text \<open>
  The remainder of the division that rounds towards zero, on mathematical integers,
  written out from the quotient.
\<close>

definition spec_trunc_quot :: "int \<Rightarrow> int \<Rightarrow> int" where
  "spec_trunc_quot a b = (if (a < 0) = (b < 0) then \<bar>a\<bar> div \<bar>b\<bar> else - (\<bar>a\<bar> div \<bar>b\<bar>))"

definition spec_trunc_rem :: "int \<Rightarrow> int \<Rightarrow> int" where
  "spec_trunc_rem a b = a - b * spec_trunc_quot a b"

text \<open>
  What the specification says of a standardized location: it is \<open>((loc % 6) + 6) % 6\<close>
  with \<open>%\<close> the truncating remainder, here on integers that do not overflow, which is
  the floor-modulo of \<open>loc\<close>, and it lies in [0,6). The first ring is the one of the
  receiver, the second the one of the result.
\<close>

definition spec_location_standardized :: "Ring \<Rightarrow> Ring \<Rightarrow> bool" where
  "spec_location_standardized r r' \<longleftrightarrow>
     sint (Location r') = spec_trunc_rem (spec_trunc_rem (sint (Location r)) 6 + 6) 6 \<and>
     sint (Location r') = sint (Location r) mod 6 \<and>
     0 \<le> sint (Location r') \<and> sint (Location r') < 6"

text \<open>
  What the specification says of a standardized speed: it is the truncating remainder
  of the speed by 6, and when it is not zero it has the sign of the speed.
\<close>

definition spec_speed_standardized :: "Ring \<Rightarrow> Ring \<Rightarrow> bool" where
  "spec_speed_standardized r r' \<longleftrightarrow>
     sint (Speed r') = spec_trunc_rem (sint (Speed r)) 6 \<and>
     - 6 < sint (Speed r') \<and> sint (Speed r') < 6 \<and>
     (sint (Speed r') \<noteq> 0 \<longrightarrow> sgn (sint (Speed r')) = sgn (sint (Speed r)))"

text \<open>
  The serialization format in the specification's words: a ring is three characters,
  the digit of its location, the sign of its speed and the digit of the speed's
  magnitude; the group codes are joined by commas.
\<close>

definition spec_sign_char :: "int \<Rightarrow> char" where
  "spec_sign_char k = (if 0 \<le> k then CHR ''+'' else CHR ''-'')"

definition spec_ring_text :: "Ring \<Rightarrow> string" where
  "spec_ring_text r =
     [digit_char (nat (sint (Location r))),
      spec_sign_char (sint (Speed r)),
      digit_char (nat \<bar>sint (Speed r)\<bar>)]"

definition spec_comma_joined :: "string list \<Rightarrow> string" where
  "spec_comma_joined ss =
     (case ss of [] \<Rightarrow> '''' | s # rest \<Rightarrow> s @ concat (map (\<lambda>t. CHR '','' # t) rest))"

text \<open>The compass of the specification's serialization example.\<close>

definition spec_example :: CompassV where
  "spec_example =
     \<lparr>InnerRing = \<lparr>Location = 5, Speed = 0\<rparr>,
      MiddleRing = \<lparr>Location = 3, Speed = 2\<rparr>,
      OuterRing = \<lparr>Location = 0, Speed = - 1\<rparr>,
      RingGroups = [OuterMiddleRingGroup]\<rparr>"

text \<open>A compass far from canonical form, for concrete checks.\<close>

definition noncanonical_example :: CompassV where
  "noncanonical_example =
     \<lparr>InnerRing = \<lparr>Location = - 1, Speed = - 7\<rparr>,
      MiddleRing = \<lparr>Location = 7, Speed = 7\<rparr>,
      OuterRing = \<lparr>Location = 12, Speed = - 1\<rparr>,
      RingGroups = [InnerRingGroup, OuterRingGroup, InnerRingGroup]\<rparr>"

section \<open>Operations on memory\<close>

text \<open>
  \<open>Standardize\<close> has a pointer receiver and works on slices, which share their backing
  arrays. For what it does to the receiver the memory is made explicit: the backing
  arrays of \<open>[]RingGroup\<close> and the \<open>Compass\<close> structs are numbered in the order of their
  allocation, an address is such a number, and allocating appends.

  A slice is its header: the backing array (none for the nil slice), the position of
  its first element in that array, its length and its capacity.
\<close>

type_synonym addr = nat

record slice =
  array :: "addr option"
  offset :: nat
  len :: nat
  cap :: nat

type_synonym CompassM = "slice Compass"

record memory =
  arrays :: "RingGroup list list"
  structs :: "CompassM list"

definition nil_slice :: slice where
  "nil_slice = \<lparr>array = None, offset = 0, len = 0, cap = 0\<rparr>"

text \<open>The elements of a slice, read from memory.\<close>

definition elems :: "memory \<Rightarrow> slice \<Rightarrow> RingGroup list" where
  "elems m s =
     (case array s of
        None \<Rightarrow> []
      | Some a \<Rightarrow> take (len s) (drop (offset s) (arrays m ! a)))"

text \<open>\<open>s[i]\<close>: \<open>None\<close> is the index-out-of-range panic.\<close>

definition index_slice :: "memory \<Rightarrow> slice \<Rightarrow> nat \<Rightarrow> RingGroup option" where
  "index_slice m s i =
     (case array s of
        None \<Rightarrow> None
      | Some a \<Rightarrow> if i < len s then Some (arrays m ! a ! (offset s + i)) else None)"

text \<open>Writing a list of values over the first elements of a slice, in its backing array.\<close>

definition store_slice :: "memory \<Rightarrow> slice \<Rightarrow> RingGroup list \<Rightarrow> memory" where
  "store_slice m s xs =
     (case array s of
        None \<Rightarrow> m
      | Some a \<Rightarrow>
          m\<lparr>arrays := (arrays m)[a :=
               take (offset s) (arrays m ! a) @ xs @
               drop (offset s + length xs) (arrays m ! a)]\<rparr>)"

text \<open>\<open>make([]RingGroup, n)\<close>: a new backing array of \<open>n\<close> zero values.\<close>

definition make_slice :: "memory \<Rightarrow> nat \<Rightarrow> memory \<times> slice" where
  "make_slice m n =
     (m\<lparr>arrays := arrays m @ [replicate n 0]\<rparr>,
      \<lparr>array = Some (length (arrays m)), offset = 0, len = n, cap = n\<rparr>)"

text \<open>\<open>copy(dst, src)\<close> copies as many elements as the shorter of the two slices has.\<close>

definition copy_slice :: "memory \<Rightarrow> slice \<Rightarrow> slice \<Rightarrow> memory" where
  "copy_slice m dst src =
     (let n = min (len dst) (len src) in store_slice m dst (take n (elems m src)))"

text \<open>\<open>sort.Slice\<close> sorts the elements of the slice in place.\<close>

definition sort_Slice_mem :: "memory \<Rightarrow> slice \<Rightarrow> memory" where
  "sort_Slice_mem m s = store_slice m s (sort_Slice (elems m s))"

text \<open>
  \<open>append(s, x)\<close>. With room left in the backing array the value is written behind the
  last element, in place. Otherwise a larger array is allocated and the elements are
  copied over. How much larger is the Go runtime's business and no part of the
  repository: the new capacity is a parameter \<open>grow\<close> of the old one, raised to what the
  new element needs.
\<close>

definition append_slice :: "(nat \<Rightarrow> nat) \<Rightarrow> memory \<Rightarrow> slice \<Rightarrow> RingGroup \<Rightarrow> memory \<times> slice" where
  "append_slice grow m s x =
     (case (if len s < cap s then array s else None) of
        Some a \<Rightarrow>
          (m\<lparr>arrays := (arrays m)[a := (arrays m ! a)[offset s + len s := x]]\<rparr>,
           s\<lparr>len := len s + 1\<rparr>)
      | None \<Rightarrow>
          (let newcap = max (grow (cap s)) (len s + 1) in
           (m\<lparr>arrays := arrays m @ [elems m s @ [x] @ replicate (newcap - (len s + 1)) 0]\<rparr>,
            \<lparr>array = Some (length (arrays m)), offset = 0, len = len s + 1, cap = newcap\<rparr>)))"

text \<open>
  One round of the deduplication loop of \<open>Standardize\<close>, at index \<open>i\<close> of the range over
  \<open>rgs\<close>; the state is the memory and the header of \<open>deduplicatedRGs\<close>.
\<close>

definition dedup_step ::
    "(nat \<Rightarrow> nat) \<Rightarrow> slice \<Rightarrow> nat \<Rightarrow> error + memory \<times> slice \<Rightarrow> error + memory \<times> slice" where
  "dedup_step grow rgs i st =
     (case st of
        Inl e \<Rightarrow> Inl e
      | Inr (m, deduplicatedRGs) \<Rightarrow>
          (case index_slice m rgs i of
             None \<Rightarrow> Inl IndexOutOfRange
           | Some rg \<Rightarrow>
               if len deduplicatedRGs > 0
               then (case index_slice m deduplicatedRGs (len deduplicatedRGs - 1) of
                       None \<Rightarrow> Inl IndexOutOfRange
                     | Some l \<Rightarrow>
                         if l = rg then Inr (m, deduplicatedRGs)
                         else Inr (append_slice grow m deduplicatedRGs rg))
               else Inr (append_slice grow m deduplicatedRGs rg)))"

text \<open>
  \<open>Compass.Standardize\<close> on memory: the receiver is a pointer, the result is the new
  memory and a pointer to the struct allocated for the result.
\<close>

definition Standardize_mem ::
    "(nat \<Rightarrow> nat) \<Rightarrow> memory \<Rightarrow> addr option \<Rightarrow> error + memory \<times> addr option" where
  "Standardize_mem grow m compass =
     (case compass of
        None \<Rightarrow> Inr (m, None)
      | Some p \<Rightarrow>
          (case make_slice m (len (RingGroups (structs m ! p))) of
             (m1, rgs) \<Rightarrow>
               (let m2 = copy_slice m1 rgs (RingGroups (structs m1 ! p));
                    m3 = sort_Slice_mem m2 rgs
                in case fold (dedup_step grow rgs) [0..<len rgs] (Inr (m3, nil_slice)) of
                     Inl e \<Rightarrow> Inl e
                   | Inr (m4, deduplicatedRGs) \<Rightarrow>
                       (let c = structs m4 ! p in
                        Inr (m4\<lparr>structs := structs m4 @ [\<lparr>
                                InnerRing = \<lparr>
                                  Location = go_rem (go_rem (Location (InnerRing c)) 6 + 6) 6,
                                  Speed = go_rem (Speed (InnerRing c)) 6\<rparr>,
                                MiddleRing = \<lparr>
                                  Location = go_rem (go_rem (Location (MiddleRing c)) 6 + 6) 6,
                                  Speed = go_rem (Speed (MiddleRing c)) 6\<rparr>,
                                OuterRing = \<lparr>
                                  Location = go_rem (go_rem (Location (OuterRing c)) 6 + 6) 6,
                                  Speed = go_rem (Speed (OuterRing c)) 6\<rparr>,
                                RingGroups = deduplicatedRGs\<rparr>]\<rparr>,
                             Some (length (structs m4)))))))"

text \<open>
  What Go's memory safety guarantees of a slice header and of a pointer: a slice lies
  within its backing array, a pointer points to an allocated struct.
\<close>

definition valid_slice :: "memory \<Rightarrow> slice \<Rightarrow> bool" where
  "valid_slice m s =
     (case array s of
        None \<Rightarrow> len s = 0 \<and> cap s = 0
      | Some a \<Rightarrow>
          a < length (arrays m) \<and> len s \<le> cap s \<and>
          offset s + cap s \<le> length (arrays m ! a))"

definition valid_memory :: "memory \<Rightarrow> bool" where
  "valid_memory m = list_all (\<lambda>c. valid_slice m (RingGroups c)) (structs m)"

definition valid_pointer :: "memory \<Rightarrow> addr option \<Rightarrow> bool" where
  "valid_pointer m compass = (case compass of None \<Rightarrow> True | Some p \<Rightarrow> p < length (structs m))"

text \<open>
  The invariant of the deduplication loop, with \<open>m3\<close> the memory at its start: the loop
  leaves what \<open>m3\<close> holds as it is, and \<open>deduplicatedRGs\<close> is a slice within an array
  allocated after \<open>m3\<close>, or nil.
\<close>

definition dedup_inv :: "memory \<Rightarrow> memory \<Rightarrow> slice \<Rightarrow> bool" where
  "dedup_inv m3 m' d \<longleftrightarrow>
     take (length (arrays m3)) (arrays m') = arrays m3 \<and>
     structs m' = structs m3 \<and>
     valid_slice m' d \<and>
     (case array d of None \<Rightarrow> True | Some a \<Rightarrow> length (arrays m3) \<le> a)"

text \<open>The value a pointer stands for: the struct it points to, with the slice read out.\<close>

definition value_of :: "memory \<Rightarrow> addr option \<Rightarrow> CompassV option" where
  "value_of m compass =
     (case compass of
        None \<Rightarrow> None
      | Some p \<Rightarrow>
          Some \<lparr>InnerRing = InnerRing (structs m ! p),
                MiddleRing = MiddleRing (structs m ! p),
                OuterRing = OuterRing (structs m ! p),
                RingGroups = elems m (RingGroups (structs m ! p))\<rparr>)"

text \<open>
  A memory for concrete checks: one backing array shared by two compasses whose slices
  overlap in it.
\<close>

definition example_array :: "RingGroup list" where
  "example_array = [InnerRingGroup, OuterRingGroup, InnerRingGroup, MiddleRingGroup]"

definition example_memory :: memory where
  "example_memory =
     \<lparr>arrays = [example_array],
      structs =
        [\<lparr>InnerRing = \<lparr>Location = - 1, Speed = - 7\<rparr>,
          MiddleRing = \<lparr>Location = 7, Speed = 7\<rparr>,
          OuterRing = \<lparr>Location = 12, Speed = - 1\<rparr>,
          RingGroups = \<lparr>array = Some 0, offset = 0, len = 3, cap = 4\<rparr>\<rparr>,
         \<lparr>InnerRing = \<lparr>Location = 0, Speed = 0\<rparr>,
          MiddleRing = \<lparr>Location = 0, Speed = 0\<rparr>,
          OuterRing = \<lparr>Location = 0, Speed = 0\<rparr>,
          RingGroups = \<lparr>array = Some 0, offset = 1, len = 3, cap = 3\<rparr>\<rparr>]\<rparr>"

section \<open>Arithmetic of the ring fields\<close>

lemma smod_6_range: "- 6 < (k::int) smod 6 \<and> k smod 6 < 6"
  using smod_int_range [where a = k and b = 6] by simp

lemma smod_6_small: "- 6 < r \<Longrightarrow> r < 6 \<Longrightarrow> (r::int) smod 6 = r"
  by (auto simp: signed_modulo_int_def sgn_if)

lemma sint_go_rem_6: "sint (go_rem x 6) = sint x smod 6"
proof -
  have "- 6 < sint x smod 6" "sint x smod 6 < 6"
    using smod_6_range [of "sint x"] by simp_all
  then have "signed_take_bit 63 (sint x smod 6) = sint x smod 6"
    by (simp add: signed_take_bit_int_eq_self)
  then show ?thesis
    by (simp add: go_rem_def sint_sbintrunc')
qed

lemma go_rem_idem: "go_rem (go_rem x 6) 6 = go_rem x 6"
proof -
  have "sint (go_rem (go_rem x 6) 6) = sint (go_rem x 6)"
    using smod_6_range [of "sint x"] by (simp add: sint_go_rem_6 smod_6_small)
  then show ?thesis by (rule signed_word_eqI)
qed

text \<open>Adding 6 to a remainder, which lies between -5 and 5, does not wrap around.\<close>

lemma sint_go_rem_plus_6: "sint (go_rem x 6 + 6) = sint x smod 6 + 6"
proof -
  have "- 6 < sint x smod 6" "sint x smod 6 < 6"
    using smod_6_range [of "sint x"] by simp_all
  then have "signed_take_bit 63 (sint x smod 6 + 6) = sint x smod 6 + 6"
    by (simp add: signed_take_bit_int_eq_self)
  then show ?thesis
    by (simp add: sint_word_add sint_go_rem_6)
qed

lemma sint_location_smod:
  "sint (go_rem (go_rem x 6 + 6) 6) = (sint x smod 6 + 6) smod 6"
  by (simp add: sint_go_rem_6 sint_go_rem_plus_6)

lemma sint_location_mod: "sint (go_rem (go_rem x 6 + 6) 6) = sint x mod 6"
proof -
  have "0 \<le> sint x smod 6 + 6"
    using smod_6_range [of "sint x"] by simp
  then have "(sint x smod 6 + 6) smod 6 = (sint x smod 6 + 6) mod 6"
    by (simp add: smod_mod_positive)
  also have "\<dots> = sint x mod 6"
    by (simp add: signed_modulo_int_eq_modulo_int)
  finally show ?thesis
    by (simp add: sint_location_smod)
qed

lemma location_idem:
  "go_rem (go_rem (go_rem (go_rem x 6 + 6) 6) 6 + 6) 6 = go_rem (go_rem x 6 + 6) 6"
proof -
  have "sint (go_rem (go_rem (go_rem (go_rem x 6 + 6) 6) 6 + 6) 6) =
        sint (go_rem (go_rem x 6 + 6) 6)"
    by (simp only: sint_location_mod mod_mod_trivial)
  then show ?thesis by (rule signed_word_eqI)
qed

lemma location_idem_reduced:
  "go_rem (go_rem (go_rem x 6 + 6) 6 + 6) 6 = go_rem (go_rem x 6 + 6) 6"
  using location_idem [of x] by (simp only: go_rem_idem)

section \<open>The loops\<close>

lemma supported_loop_iff: "supported_loop rgs rg \<longleftrightarrow> rg \<in> set rgs"
  by (induction rgs) auto

text \<open>
  The deduplication loop drops every element equal to the one appended last: started on
  the empty slice it is the library's \<open>remdups_adj\<close>.
\<close>

lemma dedup_loop_acc:
  "acc \<noteq> [] \<Longrightarrow> dedup_loop acc rgs = butlast acc @ remdups_adj (last acc # rgs)"
proof (induction rgs arbitrary: acc)
  case Nil
  then show ?case by simp
next
  case (Cons rg rest)
  show ?case
  proof (cases "last acc = rg")
    case True
    with Cons show ?thesis by simp
  next
    case False
    with Cons.prems Cons.IH [of "acc @ [rg]"] show ?thesis by simp
  qed
qed

lemma dedup_loop_Nil: "dedup_loop [] rgs = remdups_adj rgs"
  by (cases rgs) (simp_all add: dedup_loop_acc)

lemma distinct_remdups_adj_sorted: "sorted xs \<Longrightarrow> distinct (remdups_adj xs)"
  by (induction xs rule: remdups_adj.induct) (auto simp: remdups_adj_set)

text \<open>Whatever algorithm \<open>sort.Slice\<close> runs, its result is the one of the model.\<close>

lemma sort_Slice_unique: "mset ys = mset rgs \<Longrightarrow> sorted ys \<Longrightarrow> ys = sort_Slice rgs"
  by (simp add: sort_Slice_def properties_for_sort)

lemma sorted_dedup: "sorted (dedup_loop [] (sort_Slice rgs))"
  by (simp add: dedup_loop_Nil sort_Slice_def sorted_remdups_adj)

lemma distinct_dedup: "distinct (dedup_loop [] (sort_Slice rgs))"
  by (simp add: dedup_loop_Nil sort_Slice_def distinct_remdups_adj_sorted)

lemma set_dedup: "set (dedup_loop [] (sort_Slice rgs)) = set rgs"
  by (simp add: dedup_loop_Nil sort_Slice_def remdups_adj_set)

lemma dedup_idem:
  "dedup_loop [] (sort_Slice (dedup_loop [] (sort_Slice rgs))) = dedup_loop [] (sort_Slice rgs)"
proof -
  let ?d = "dedup_loop [] (sort_Slice rgs)"
  have "sort_Slice ?d = ?d"
    using sorted_dedup [of rgs] by (simp add: sorted_sort_id sort_Slice_def)
  moreover have "dedup_loop [] ?d = ?d"
    using distinct_dedup [of rgs] by (simp add: dedup_loop_Nil remdups_adj_distinct)
  ultimately show ?thesis by simp
qed

lemma sorted_map_unat: "sorted (map unat (rgs :: RingGroup list)) \<longleftrightarrow> sorted rgs"
  by (simp add: sorted_map word_le_nat_alt [symmetric])

lemmas RingGroup_defs =
  OuterRingGroup_def MiddleRingGroup_def InnerRingGroup_def
  OuterMiddleRingGroup_def OuterInnerRingGroup_def MiddleInnerRingGroup_def

section \<open>The model against the specification's words\<close>

lemma smod_6_trunc_rem: "(k::int) smod 6 = spec_trunc_rem k 6"
  by (simp add: signed_modulo_int_def spec_trunc_rem_def spec_trunc_quot_def sgn_if
      minus_mult_div_eq_mod [symmetric])

lemma sgn_smod_6: "(k::int) smod 6 \<noteq> 0 \<Longrightarrow> sgn (k smod 6) = sgn k"
  by (auto simp: signed_modulo_int_def sgn_mult sgn_if split: if_splits)

lemma location_standardized_go_rem:
  "spec_location_standardized r \<lparr>Location = go_rem (go_rem (Location r) 6 + 6) 6, Speed = v\<rparr>"
  by (simp add: spec_location_standardized_def smod_6_trunc_rem [symmetric]
      sint_location_smod [symmetric] sint_location_mod)

lemma speed_standardized_go_rem:
  "spec_speed_standardized r \<lparr>Location = l, Speed = go_rem (Speed r) 6\<rparr>"
  using smod_6_range [of "sint (Speed r)"]
  by (simp add: spec_speed_standardized_def sint_go_rem_6 sgn_smod_6 smod_6_trunc_rem [symmetric])

lemma decimal_digit: "n < 10 \<Longrightarrow> decimal n = [digit_char n]"
  by (simp add: decimal.simps)

lemma fmt_d_digit: "0 \<le> sint x \<Longrightarrow> sint x < 6 \<Longrightarrow> fmt_d x = [digit_char (nat (sint x))]"
  by (simp add: fmt_d_def decimal_digit)

lemma fmt_plus_d_digit:
  "- 6 < sint x \<Longrightarrow> sint x < 6 \<Longrightarrow>
   fmt_plus_d x = [spec_sign_char (sint x), digit_char (nat \<bar>sint x\<bar>)]"
  by (simp add: fmt_plus_d_def spec_sign_char_def decimal_digit)

lemma ring_text:
  "fmt_d (go_rem (go_rem l 6 + 6) 6) @ fmt_plus_d (go_rem s 6) =
   spec_ring_text \<lparr>Location = go_rem (go_rem l 6 + 6) 6, Speed = go_rem s 6\<rparr>"
proof -
  have "0 \<le> sint (go_rem (go_rem l 6 + 6) 6)" "sint (go_rem (go_rem l 6 + 6) 6) < 6"
    by (simp_all add: sint_location_mod)
  moreover have "- 6 < sint (go_rem s 6)" "sint (go_rem s 6) < 6"
    using smod_6_range [of "sint s"] by (simp_all add: sint_go_rem_6)
  ultimately show ?thesis
    by (simp add: fmt_d_digit fmt_plus_d_digit spec_ring_text_def)
qed

lemma Join_comma: "Join ss '','' = spec_comma_joined ss"
  by (induction ss "'',''" rule: Join.induct) (simp_all add: spec_comma_joined_def)

section \<open>The memory-level \<open>Standardize\<close>\<close>

text \<open>
  The deduplication loop on lists, one element further: the step the loop on memory
  takes at each index.
\<close>

lemma dedup_loop_snoc:
  "dedup_loop acc (xs @ [x]) =
     (if dedup_loop acc xs \<noteq> [] \<and> last (dedup_loop acc xs) = x then dedup_loop acc xs
      else dedup_loop acc xs @ [x])"
  by (induction xs arbitrary: acc) auto

lemma take_prefix_nth:
  "take (length xs) ys = xs \<Longrightarrow> a < length xs \<Longrightarrow> ys ! a = xs ! a"
  by (metis nth_take)

lemma take_prefix_length: "take (length xs) ys = xs \<Longrightarrow> length xs \<le> length ys"
  by (metis length_take min.cobounded1 min.commute)

lemma elems_length: "valid_slice m s \<Longrightarrow> length (elems m s) = len s"
  by (auto simp: valid_slice_def elems_def split: option.splits)

lemma elems_nth:
  "valid_slice m s \<Longrightarrow> array s = Some a \<Longrightarrow> i < len s \<Longrightarrow>
   elems m s ! i = arrays m ! a ! (offset s + i)"
  by (auto simp: valid_slice_def elems_def)

lemma index_slice_elems:
  "valid_slice m s \<Longrightarrow> i < len s \<Longrightarrow> index_slice m s i = Some (elems m s ! i)"
  by (auto simp: valid_slice_def elems_def index_slice_def split: option.splits)

lemma index_slice_last:
  assumes "valid_slice m s" "0 < len s"
  shows "index_slice m s (len s - 1) = Some (last (elems m s))"
proof -
  have "elems m s \<noteq> []"
    using assms elems_length [of m s] by auto
  then have "last (elems m s) = elems m s ! (len s - 1)"
    using assms elems_length [of m s] by (simp add: last_conv_nth)
  with assms show ?thesis
    by (simp add: index_slice_elems)
qed

lemma dedup_inv_init: "dedup_inv m3 m3 nil_slice"
  by (simp add: dedup_inv_def nil_slice_def valid_slice_def)

lemma append_slice_inv:
  assumes inv: "dedup_inv m3 m' d" and app: "append_slice grow m' d x = (m'', d')"
  shows "dedup_inv m3 m'' d' \<and> elems m'' d' = elems m' d @ [x]"
proof (cases "if len d < cap d then array d else None")
  case None
  let ?newcap = "max (grow (cap d)) (len d + 1)"
  let ?new = "elems m' d @ [x] @ replicate (?newcap - (len d + 1)) 0"
  from None app have m'': "m'' = m'\<lparr>arrays := arrays m' @ [?new]\<rparr>"
    and d': "d' = \<lparr>array = Some (length (arrays m')), offset = 0, len = len d + 1, cap = ?newcap\<rparr>"
    by (simp_all add: append_slice_def Let_def)
  from inv have len: "length (elems m' d) = len d"
    by (simp add: dedup_inv_def elems_length)
  from inv have le: "length (arrays m3) \<le> length (arrays m')"
    by (simp add: dedup_inv_def take_prefix_length)
  have "elems m'' d' = elems m' d @ [x]"
    using len by (simp add: m'' d' elems_def)
  moreover have "dedup_inv m3 m'' d'"
    using inv le len by (simp add: dedup_inv_def m'' d' valid_slice_def)
  ultimately show ?thesis by simp
next
  case (Some a)
  then have lt: "len d < cap d" and a: "array d = Some a"
    by (simp_all split: if_splits)
  from Some app have m'': "m'' = m'\<lparr>arrays := (arrays m')[a := (arrays m' ! a)[offset d + len d := x]]\<rparr>"
    and d': "d' = d\<lparr>len := len d + 1\<rparr>"
    by (simp_all add: append_slice_def)
  from inv a have va: "a < length (arrays m')" "offset d + cap d \<le> length (arrays m' ! a)"
    and fresh: "length (arrays m3) \<le> a"
    by (simp_all add: dedup_inv_def valid_slice_def)
  have "elems m'' d' = elems m' d @ [x]"
    using a lt va by (simp add: m'' d' elems_def take_Suc_conv_app_nth drop_update_swap)
  moreover have "dedup_inv m3 m'' d'"
    using inv a lt va fresh by (simp add: dedup_inv_def m'' d' valid_slice_def)
  ultimately show ?thesis by simp
qed


lemma dedup_step_inv:
  assumes inv: "dedup_inv m3 m' d" and rg: "index_slice m' rgs i = Some rg"
  shows "\<exists>m'' d'. dedup_step grow rgs i (Inr (m', d)) = Inr (m'', d') \<and>
           dedup_inv m3 m'' d' \<and>
           elems m'' d' =
             (if elems m' d \<noteq> [] \<and> last (elems m' d) = rg then elems m' d
              else elems m' d @ [rg])"
proof -
  from inv have valid: "valid_slice m' d"
    by (simp add: dedup_inv_def)
  then have len: "length (elems m' d) = len d"
    by (rule elems_length)
  obtain m'' d' where app: "append_slice grow m' d rg = (m'', d')"
    by (cases "append_slice grow m' d rg")
  with inv have app_inv: "dedup_inv m3 m'' d'" "elems m'' d' = elems m' d @ [rg]"
    using append_slice_inv [of m3 m' d grow rg m'' d'] by simp_all
  show ?thesis
  proof (cases "0 < len d")
    case False
    with len have "elems m' d = []" by simp
    with False rg app app_inv show ?thesis
      by (simp add: dedup_step_def)
  next
    case True
    with len have ne: "elems m' d \<noteq> []" by auto
    from valid True have "index_slice m' d (len d - 1) = Some (last (elems m' d))"
      by (rule index_slice_last)
    with True rg app app_inv inv ne show ?thesis
      by (simp add: dedup_step_def)
  qed
qed

lemma dedup_fold:
  assumes rgs: "valid_slice m3 rgs"
  shows "k \<le> len rgs \<Longrightarrow>
         \<exists>m' d. fold (dedup_step grow rgs) [0..<k] (Inr (m3, nil_slice)) = Inr (m', d) \<and>
           dedup_inv m3 m' d \<and>
           elems m' d = dedup_loop [] (take k (elems m3 rgs))"
proof (induction k)
  case 0
  have "elems m3 nil_slice = []"
    by (simp add: elems_def nil_slice_def)
  then show ?case
    by (simp add: dedup_inv_init)
next
  case (Suc k)
  then obtain m' d where
    fold_k: "fold (dedup_step grow rgs) [0..<k] (Inr (m3, nil_slice)) = Inr (m', d)"
    and inv: "dedup_inv m3 m' d"
    and el: "elems m' d = dedup_loop [] (take k (elems m3 rgs))"
    by auto
  from Suc.prems have k: "k < len rgs" by simp
  with rgs obtain a where a: "array rgs = Some a" "a < length (arrays m3)"
    by (auto simp: valid_slice_def split: option.splits)
  from inv a have same: "arrays m' ! a = arrays m3 ! a"
    by (simp add: dedup_inv_def take_prefix_nth)
  from rgs a k have "elems m3 rgs ! k = arrays m3 ! a ! (offset rgs + k)"
    by (simp add: elems_nth)
  with a k same have rg: "index_slice m' rgs k = Some (elems m3 rgs ! k)"
    by (simp add: index_slice_def)
  from dedup_step_inv [OF inv rg, of grow]
  obtain m'' d' where
    step: "dedup_step grow rgs k (Inr (m', d)) = Inr (m'', d')"
    and inv': "dedup_inv m3 m'' d'"
    and el': "elems m'' d' =
      (if elems m' d \<noteq> [] \<and> last (elems m' d) = elems m3 rgs ! k then elems m' d
       else elems m' d @ [elems m3 rgs ! k])"
    by blast
  from rgs k have "take (Suc k) (elems m3 rgs) = take k (elems m3 rgs) @ [elems m3 rgs ! k]"
    by (simp add: take_Suc_conv_app_nth elems_length)
  with el el' have "elems m'' d' = dedup_loop [] (take (Suc k) (elems m3 rgs))"
    by (simp only: dedup_loop_snoc)
  with fold_k step inv' show ?case
    by simp
qed


lemma elems_arrays_cong: "arrays m' = arrays m \<Longrightarrow> elems m' s = elems m s"
  by (simp add: elems_def cong: option.case_cong)

lemma valid_slice_arrays_cong: "arrays m' = arrays m \<Longrightarrow> valid_slice m' s = valid_slice m s"
  by (simp add: valid_slice_def cong: option.case_cong)

lemma elems_extended:
  "valid_slice m s \<Longrightarrow> elems (m\<lparr>arrays := arrays m @ ys\<rparr>) s = elems m s"
  by (auto simp: valid_slice_def elems_def nth_append split: option.splits)

lemma valid_slice_prefix:
  assumes "valid_slice m s" "take (length (arrays m)) (arrays m') = arrays m"
  shows "valid_slice m' s \<and> elems m' s = elems m s"
proof (cases "array s")
  case None
  with assms show ?thesis by (simp add: valid_slice_def elems_def)
next
  case (Some a)
  with assms have a: "a < length (arrays m)"
    by (simp add: valid_slice_def)
  with assms have "arrays m' ! a = arrays m ! a" "length (arrays m) \<le> length (arrays m')"
    by (simp_all add: take_prefix_nth take_prefix_length)
  with assms Some a show ?thesis
    by (simp add: valid_slice_def elems_def)
qed

lemma sorted_copy:
  assumes src: "valid_slice m src"
  shows "sort_Slice_mem
           (copy_slice (m\<lparr>arrays := arrays m @ [replicate (len src) 0]\<rparr>)
              \<lparr>array = Some (length (arrays m)), offset = 0, len = len src, cap = len src\<rparr> src)
           \<lparr>array = Some (length (arrays m)), offset = 0, len = len src, cap = len src\<rparr> =
         m\<lparr>arrays := arrays m @ [sort_Slice (elems m src)]\<rparr>"
proof -
  let ?m1 = "m\<lparr>arrays := arrays m @ [replicate (len src) 0]\<rparr>"
  let ?m2 = "m\<lparr>arrays := arrays m @ [elems m src]\<rparr>"
  let ?rgs = "\<lparr>array = Some (length (arrays m)), offset = 0, len = len src, cap = len src\<rparr>"
  from src have el: "elems ?m1 src = elems m src" and n: "length (elems m src) = len src"
    by (simp_all add: elems_extended elems_length)
  then have m2: "copy_slice ?m1 ?rgs src = ?m2"
    by (simp add: copy_slice_def store_slice_def)
  from n have "elems ?m2 ?rgs = elems m src"
    by (simp add: elems_def)
  with n show ?thesis
    by (simp add: m2 sort_Slice_mem_def store_slice_def sort_Slice_def)
qed

lemma Standardize_mem_correct:
  assumes valid: "valid_memory m" and p: "p < length (structs m)"
  shows "\<exists>m'. Standardize_mem grow m (Some p) = Inr (m', Some (length (structs m))) \<and>
           take (length (arrays m)) (arrays m') = arrays m \<and>
           take (length (structs m)) (structs m') = structs m \<and>
           length (structs m') = Suc (length (structs m)) \<and>
           valid_memory m' \<and>
           value_of m' (Some (length (structs m))) = Standardize (value_of m (Some p))"
proof -
  let ?c = "structs m ! p"
  let ?src = "RingGroups ?c"
  let ?sorted = "sort_Slice (elems m ?src)"
  let ?m3 = "m\<lparr>arrays := arrays m @ [?sorted]\<rparr>"
  let ?rgs = "\<lparr>array = Some (length (arrays m)), offset = 0, len = len ?src, cap = len ?src\<rparr>"
  from valid p have src: "valid_slice m ?src"
    by (simp add: valid_memory_def list_all_length)
  then have n: "length ?sorted = len ?src"
    by (simp add: sort_Slice_def elems_length)
  note m3 = sorted_copy [OF src]
  have rgs_valid: "valid_slice ?m3 ?rgs"
    using n by (simp add: valid_slice_def)
  have rgs_elems: "elems ?m3 ?rgs = ?sorted"
    using n by (simp add: elems_def)
  from dedup_fold [OF rgs_valid, of "len ?src" grow]
  obtain m4 d where
    fold: "fold (dedup_step grow ?rgs) [0..<len ?src] (Inr (?m3, nil_slice)) = Inr (m4, d)"
    and inv: "dedup_inv ?m3 m4 d"
    and el: "elems m4 d = dedup_loop [] ?sorted"
    using n by (auto simp: rgs_elems)
  from inv have st4: "structs m4 = structs m"
    and ar4: "take (Suc (length (arrays m))) (arrays m4) = arrays m @ [?sorted]"
    and d: "valid_slice m4 d"
    by (simp_all add: dedup_inv_def)
  let ?new = "\<lparr>
      InnerRing = \<lparr>
        Location = go_rem (go_rem (Location (InnerRing ?c)) 6 + 6) 6,
        Speed = go_rem (Speed (InnerRing ?c)) 6\<rparr>,
      MiddleRing = \<lparr>
        Location = go_rem (go_rem (Location (MiddleRing ?c)) 6 + 6) 6,
        Speed = go_rem (Speed (MiddleRing ?c)) 6\<rparr>,
      OuterRing = \<lparr>
        Location = go_rem (go_rem (Location (OuterRing ?c)) 6 + 6) 6,
        Speed = go_rem (Speed (OuterRing ?c)) 6\<rparr>,
      RingGroups = d\<rparr>"
  let ?m' = "m4\<lparr>structs := structs m @ [?new]\<rparr>"
  have run: "Standardize_mem grow m (Some p) = Inr (?m', Some (length (structs m)))"
    using fold by (simp add: Standardize_mem_def make_slice_def m3 st4 Let_def)
  have "take (length (arrays m)) (take (Suc (length (arrays m))) (arrays m4)) = arrays m"
    by (simp only: ar4) simp
  then have ar: "take (length (arrays m)) (arrays m4) = arrays m"
    by (simp add: min_def)
  have old: "list_all (\<lambda>c. valid_slice ?m' (RingGroups c)) (structs m)"
    unfolding list_all_length
  proof (intro allI impI)
    fix i assume "i < length (structs m)"
    with valid have "valid_slice m (RingGroups (structs m ! i))"
      by (simp add: valid_memory_def list_all_length)
    from valid_slice_prefix [OF this, of ?m'] ar
    show "valid_slice ?m' (RingGroups (structs m ! i))"
      by simp
  qed
  have "valid_slice ?m' d"
    using d valid_slice_arrays_cong [of ?m' m4 d] by simp
  with old have valid': "valid_memory ?m'"
    by (simp add: valid_memory_def)
  have "elems ?m' d = dedup_loop [] ?sorted"
    using el elems_arrays_cong [of ?m' m4 d] by simp
  then have "value_of ?m' (Some (length (structs m))) = Standardize (value_of m (Some p))"
    by (simp add: value_of_def Standardize_def Let_def)
  with run ar valid' show ?thesis
    by simp
qed

text \<open>
  The memory-level \<open>Standardize\<close> computes what the value-level one does: the value the
  result pointer stands for in the new memory is \<open>Standardize\<close> of the value the receiver
  stood for. It returns (no index is out of range), and the new memory is valid again.
\<close>

lemma Standardize_mem_refines:
  assumes "valid_memory m" and "valid_pointer m compass"
  shows "\<exists>m' r. Standardize_mem grow m compass = Inr (m', r) \<and>
           valid_memory m' \<and> valid_pointer m' r \<and>
           value_of m' r = Standardize (value_of m compass)"
proof (cases compass)
  case None
  with assms show ?thesis
    by (simp add: Standardize_mem_def valid_pointer_def value_of_def Standardize_def)
next
  case (Some p)
  with assms have "p < length (structs m)"
    by (simp add: valid_pointer_def)
  from Standardize_mem_correct [OF assms(1) this, of grow] Some show ?thesis
    by (auto simp: valid_pointer_def)
qed

section \<open>The claims\<close>

text \<open>
  C2: \<open>Standardize\<close> is idempotent. For every compass value, nil included, standardizing
  the standardized value gives the standardized value again: the records are equal, that
  is the three rings are equal field by field and the two \<open>RingGroups\<close> sequences are the
  same list.
\<close>

theorem Standardize_idempotent: "Standardize (Standardize c) = Standardize c"
  by (cases c) (simp_all add: Standardize_def Let_def go_rem_idem location_idem_reduced dedup_idem)

text \<open>
  At \<open>noncanonical_example\<close> the second standardization returns the canonical value the
  first one produced.
\<close>

theorem Standardize_idempotent_witness:
  "Standardize (Standardize (Some noncanonical_example)) =
     Some \<lparr>InnerRing = \<lparr>Location = 5, Speed = - 1\<rparr>,
           MiddleRing = \<lparr>Location = 1, Speed = 1\<rparr>,
           OuterRing = \<lparr>Location = 0, Speed = - 1\<rparr>,
           RingGroups = [InnerRingGroup, OuterRingGroup]\<rparr>"
proof -
  have "Standardize (Some noncanonical_example) =
     Some \<lparr>InnerRing = \<lparr>Location = 5, Speed = - 1\<rparr>,
           MiddleRing = \<lparr>Location = 1, Speed = 1\<rparr>,
           OuterRing = \<lparr>Location = 0, Speed = - 1\<rparr>,
           RingGroups = [InnerRingGroup, OuterRingGroup]\<rparr>"
    by (simp add: noncanonical_example_def Standardize_def sort_Slice_def go_rem_def
        signed_modulo_int_def RingGroup_defs word_le_nat_alt)
  with Standardize_idempotent [of "Some noncanonical_example"] show ?thesis
    by simp
qed

text \<open>
  C7: on a non-nil compass \<open>IsRingGroupSupported\<close> returns true exactly when the group
  is an element of the \<open>RingGroups\<close> of the compass as given.
\<close>

theorem IsRingGroupSupported_iff:
  "IsRingGroupSupported (Some c) rg \<longleftrightarrow> rg \<in> set (RingGroups c)"
  by (simp add: IsRingGroupSupported_def supported_loop_iff)

text \<open>\<open>noncanonical_example\<close> supports the outer group and not the middle one.\<close>

theorem IsRingGroupSupported_iff_witness:
  "IsRingGroupSupported (Some noncanonical_example) OuterRingGroup \<and>
   \<not> IsRingGroupSupported (Some noncanonical_example) MiddleRingGroup"
  using IsRingGroupSupported_iff [of noncanonical_example OuterRingGroup]
    IsRingGroupSupported_iff [of noncanonical_example MiddleRingGroup]
  by (simp add: noncanonical_example_def RingGroup_defs)

text \<open>
  C10: \<open>Standardize\<close> preserves group membership: a group is supported by the
  standardized compass exactly when it is supported by the compass itself.
\<close>

theorem Standardize_preserves_support:
  "IsRingGroupSupported (Standardize (Some c)) rg = IsRingGroupSupported (Some c) rg"
  by (simp add: IsRingGroupSupported_def Standardize_def Let_def supported_loop_iff set_dedup)

text \<open>Standardized, \<open>noncanonical_example\<close> still supports the outer group and not the middle one.\<close>

theorem Standardize_preserves_support_witness:
  "IsRingGroupSupported (Standardize (Some noncanonical_example)) OuterRingGroup \<and>
   \<not> IsRingGroupSupported (Standardize (Some noncanonical_example)) MiddleRingGroup"
proof -
  have "IsRingGroupSupported (Some noncanonical_example) OuterRingGroup"
    and "\<not> IsRingGroupSupported (Some noncanonical_example) MiddleRingGroup"
    by (simp_all add: IsRingGroupSupported_def noncanonical_example_def RingGroup_defs)
  with Standardize_preserves_support [of noncanonical_example OuterRingGroup]
    Standardize_preserves_support [of noncanonical_example MiddleRingGroup]
  show ?thesis by simp
qed

text \<open>
  C6: on the nil compass \<open>IsRingGroupSupported\<close> returns false for every group,
  \<open>Standardize\<close> returns nil and \<open>String\<close> returns the empty string, a value and
  not a panic; \<open>Validate\<close> returns the nil error there as well.
\<close>

theorem nil_compass_safe:
  "IsRingGroupSupported None rg = False \<and> Standardize None = None \<and>
   String None = Inr '''' \<and> Validate None = None"
  by (simp add: IsRingGroupSupported_def Standardize_def String_def Validate_def)

text \<open>
  C8: for a bit pattern that is none of the six constants, \<open>Name\<close> and \<open>ShortName\<close>
  both return the empty string; for the six constants they return the long names and the
  short codes.
\<close>

theorem Name_ShortName_total:
  "(rg \<notin> {OuterRingGroup, MiddleRingGroup, InnerRingGroup,
            OuterMiddleRingGroup, OuterInnerRingGroup, MiddleInnerRingGroup}
      \<longrightarrow> Name rg = '''' \<and> ShortName rg = '''') \<and>
   Name OuterRingGroup = ''Outer'' \<and> ShortName OuterRingGroup = ''o'' \<and>
   Name MiddleRingGroup = ''Middle'' \<and> ShortName MiddleRingGroup = ''m'' \<and>
   Name InnerRingGroup = ''Inner'' \<and> ShortName InnerRingGroup = ''i'' \<and>
   Name OuterMiddleRingGroup = ''OuterMiddle'' \<and> ShortName OuterMiddleRingGroup = ''om'' \<and>
   Name OuterInnerRingGroup = ''OuterInner'' \<and> ShortName OuterInnerRingGroup = ''oi'' \<and>
   Name MiddleInnerRingGroup = ''MiddleInner'' \<and> ShortName MiddleInnerRingGroup = ''mi''"
  by (simp add: Name_def ShortName_def RingGroup_defs)

text \<open>
  The empty set 0b000, the full set 0b111 and 0b1100, which has a bit above the low
  three, are none of the six constants and have no name.
\<close>

theorem Name_ShortName_total_witness:
  "Name 0 = '''' \<and> ShortName 0 = '''' \<and> Name 7 = '''' \<and> ShortName 7 = '''' \<and>
   Name 12 = '''' \<and> ShortName 12 = ''''"
proof -
  have "(0::RingGroup) \<notin> {OuterRingGroup, MiddleRingGroup, InnerRingGroup,
          OuterMiddleRingGroup, OuterInnerRingGroup, MiddleInnerRingGroup}"
    and "(7::RingGroup) \<notin> {OuterRingGroup, MiddleRingGroup, InnerRingGroup,
          OuterMiddleRingGroup, OuterInnerRingGroup, MiddleInnerRingGroup}"
    and "(12::RingGroup) \<notin> {OuterRingGroup, MiddleRingGroup, InnerRingGroup,
          OuterMiddleRingGroup, OuterInnerRingGroup, MiddleInnerRingGroup}"
    by (simp_all add: RingGroup_defs)
  with Name_ShortName_total [of 0] Name_ShortName_total [of 7] Name_ShortName_total [of 12]
  show ?thesis by blast
qed

text \<open>
  C3: for every non-nil compass, each of the three ring locations of the result of
  \<open>Standardize\<close> is \<open>((loc % 6) + 6) % 6\<close> of the receiver's, computed without
  overflow, and lies in [0,6); location -1 becomes 5 and location 7 becomes 1, in each
  ring.
\<close>

theorem Standardize_location:
  "(\<exists>std. Standardize (Some c) = Some std \<and>
      spec_location_standardized (InnerRing c) (InnerRing std) \<and>
      spec_location_standardized (MiddleRing c) (MiddleRing std) \<and>
      spec_location_standardized (OuterRing c) (OuterRing std)) \<and>
   map_option (\<lambda>std. (Location (OuterRing std), Location (MiddleRing std), Location (InnerRing std)))
     (Standardize (Some \<lparr>InnerRing = \<lparr>Location = - 1, Speed = si\<rparr>,
                        MiddleRing = \<lparr>Location = - 1, Speed = sm\<rparr>,
                        OuterRing = \<lparr>Location = - 1, Speed = so\<rparr>,
                        RingGroups = rgs\<rparr>)) = Some (5, 5, 5) \<and>
   map_option (\<lambda>std. (Location (OuterRing std), Location (MiddleRing std), Location (InnerRing std)))
     (Standardize (Some \<lparr>InnerRing = \<lparr>Location = 7, Speed = si\<rparr>,
                        MiddleRing = \<lparr>Location = 7, Speed = sm\<rparr>,
                        OuterRing = \<lparr>Location = 7, Speed = so\<rparr>,
                        RingGroups = rgs\<rparr>)) = Some (1, 1, 1)"
proof -
  have loc5: "go_rem (go_rem (- 1) 6 + 6) 6 = 5" and loc1: "go_rem (go_rem 7 6 + 6) 6 = 1"
    by (simp_all add: go_rem_def signed_modulo_int_def)
  show ?thesis
    by (simp add: Standardize_def Let_def location_standardized_go_rem loc5 loc1)
qed

text \<open>
  C4: for every non-nil compass, each of the three ring speeds of the result of
  \<open>Standardize\<close> is the truncating remainder of the receiver's speed by 6, and a
  non-zero one keeps the sign of the input; speed -1 stays -1 (which is not 5), speed 7
  becomes 1 and speed -7 becomes -1.
\<close>

theorem Standardize_speed:
  "(\<exists>std. Standardize (Some c) = Some std \<and>
      spec_speed_standardized (InnerRing c) (InnerRing std) \<and>
      spec_speed_standardized (MiddleRing c) (MiddleRing std) \<and>
      spec_speed_standardized (OuterRing c) (OuterRing std)) \<and>
   map_option (\<lambda>std. (Speed (OuterRing std), Speed (MiddleRing std), Speed (InnerRing std)))
     (Standardize (Some \<lparr>InnerRing = \<lparr>Location = li, Speed = - 7\<rparr>,
                        MiddleRing = \<lparr>Location = lm, Speed = 7\<rparr>,
                        OuterRing = \<lparr>Location = lo, Speed = - 1\<rparr>,
                        RingGroups = rgs\<rparr>)) = Some (- 1, 1, - 1) \<and>
   (- 1 :: go_int) \<noteq> 5"
proof -
  have sp: "go_rem (- 1) 6 = - 1" "go_rem 7 6 = 1" "go_rem (- 7) 6 = - 1"
    by (simp_all add: go_rem_def signed_modulo_int_def)
  show ?thesis
    by (simp add: Standardize_def Let_def speed_standardized_go_rem sp)
qed

text \<open>
  At the compass \<open>noncanonical_example\<close> the inner speed -7 is reduced to a non-zero
  speed, which is negative as -7 is.
\<close>

theorem Standardize_speed_witness:
  "\<exists>std. Standardize (Some noncanonical_example) = Some std \<and>
     sint (Speed (InnerRing std)) \<noteq> 0 \<and>
     sgn (sint (Speed (InnerRing std))) = sgn (sint (Speed (InnerRing noncanonical_example)))"
proof -
  from Standardize_speed [of noncanonical_example]
  obtain std where std: "Standardize (Some noncanonical_example) = Some std"
    and sp: "spec_speed_standardized (InnerRing noncanonical_example) (InnerRing std)"
    by blast
  from std have "Speed (InnerRing std) = - 1"
    by (auto simp: noncanonical_example_def Standardize_def Let_def go_rem_def signed_modulo_int_def)
  then have "sint (Speed (InnerRing std)) \<noteq> 0"
    by simp
  with std sp show ?thesis
    unfolding spec_speed_standardized_def by blast
qed

text \<open>
  C5: for every non-nil compass, the \<open>RingGroups\<close> of the result of \<open>Standardize\<close> are
  in ascending order of their numeric value and without duplicates; the groups
  [Inner, Outer, Inner] become [Inner, Outer].
\<close>

theorem Standardize_RingGroups_sorted_distinct:
  "(\<exists>std. Standardize (Some c) = Some std \<and>
      sorted (map unat (RingGroups std)) \<and> distinct (RingGroups std)) \<and>
   map_option RingGroups
     (Standardize (Some (c\<lparr>RingGroups := [InnerRingGroup, OuterRingGroup, InnerRingGroup]\<rparr>)))
     = Some [InnerRingGroup, OuterRingGroup]"
proof -
  have "dedup_loop [] (sort_Slice [InnerRingGroup, OuterRingGroup, InnerRingGroup])
          = [InnerRingGroup, OuterRingGroup]"
    by (simp add: sort_Slice_def RingGroup_defs word_le_nat_alt)
  then show ?thesis
    by (simp add: Standardize_def Let_def sorted_map_unat sorted_dedup distinct_dedup)
qed

text \<open>
  C1: for every non-nil compass \<open>String\<close> returns, computed from the standardized
  value, the three rings in the order Outer, Middle, Inner separated by commas, each as
  the digit of its location followed by its speed with a mandatory sign, then a slash
  and the short names of the standardized groups joined by commas; the compass of the
  specification's example serializes to \<open>0-1,3+2,5+0/om\<close>.
\<close>

theorem String_format:
  "(\<exists>std. Standardize (Some c) = Some std \<and>
      String (Some c) =
        Inr (spec_ring_text (OuterRing std) @ '','' @
             spec_ring_text (MiddleRing std) @ '','' @
             spec_ring_text (InnerRing std) @ ''/'' @
             spec_comma_joined (map ShortName (RingGroups std)))) \<and>
   String (Some spec_example) = Inr ''0-1,3+2,5+0/om''"
proof -
  have "String (Some spec_example) = Inr ''0-1,3+2,5+0/om''"
    by (simp add: spec_example_def String_def Standardize_def sort_Slice_def go_rem_def
        signed_modulo_int_def fmt_d_def fmt_plus_d_def decimal.simps digit_char_def
        ShortName_def RingGroup_defs)
  moreover have "\<exists>std. Standardize (Some c) = Some std \<and>
      String (Some c) =
        Inr (spec_ring_text (OuterRing std) @ '','' @
             spec_ring_text (MiddleRing std) @ '','' @
             spec_ring_text (InnerRing std) @ ''/'' @
             spec_comma_joined (map ShortName (RingGroups std)))"
    using ring_text [of "Location (OuterRing c)" "Speed (OuterRing c)"]
      ring_text [of "Location (MiddleRing c)" "Speed (MiddleRing c)"]
      ring_text [of "Location (InnerRing c)" "Speed (InnerRing c)"]
    by (simp add: String_def Standardize_def Let_def Join_comma)
  ultimately show ?thesis by simp
qed

text \<open>
  C9: \<open>Standardize\<close> leaves its receiver unmodified. In a valid memory, for a receiver
  that points to a struct, the call returns, and in the memory it leaves the struct of
  the receiver is the one it was (the three rings with their locations and speeds, and
  the header of \<open>RingGroups\<close>) and the elements of its \<open>RingGroups\<close> are the same in the
  same order. More than that, every backing array and every struct allocated before
  the call is as it was: the call only allocates.
\<close>

theorem Standardize_mem_receiver_unmodified:
  assumes "valid_memory m" and "p < length (structs m)"
  shows "\<exists>m' r. Standardize_mem grow m (Some p) = Inr (m', r) \<and>
           structs m' ! p = structs m ! p \<and>
           elems m' (RingGroups (structs m' ! p)) = elems m (RingGroups (structs m ! p)) \<and>
           take (length (arrays m)) (arrays m') = arrays m \<and>
           take (length (structs m)) (structs m') = structs m"
proof -
  from Standardize_mem_correct [OF assms, of grow]
  obtain m' where run: "Standardize_mem grow m (Some p) = Inr (m', Some (length (structs m)))"
    and ar: "take (length (arrays m)) (arrays m') = arrays m"
    and st: "take (length (structs m)) (structs m') = structs m"
    by blast
  from st assms(2) have same: "structs m' ! p = structs m ! p"
    by (rule take_prefix_nth)
  from assms have "valid_slice m (RingGroups (structs m ! p))"
    by (simp add: valid_memory_def list_all_length)
  from valid_slice_prefix [OF this ar]
  have "elems m' (RingGroups (structs m ! p)) = elems m (RingGroups (structs m ! p))"
    by simp
  with run same ar st show ?thesis
    by simp
qed

text \<open>
  In \<open>example_memory\<close> the receiver's slice shares its backing array with the slice of
  another compass. After the call the receiver still holds the unsorted groups with
  their duplicate, and its rings still hold the locations and speeds out of range.
\<close>

theorem Standardize_mem_receiver_unmodified_witness:
  "valid_memory example_memory \<and> 0 < length (structs example_memory) \<and>
   (\<exists>m' r. Standardize_mem (\<lambda>c. 2 * c) example_memory (Some 0) = Inr (m', r) \<and>
      InnerRing (structs m' ! 0) = \<lparr>Location = - 1, Speed = - 7\<rparr> \<and>
      MiddleRing (structs m' ! 0) = \<lparr>Location = 7, Speed = 7\<rparr> \<and>
      OuterRing (structs m' ! 0) = \<lparr>Location = 12, Speed = - 1\<rparr> \<and>
      elems m' (RingGroups (structs m' ! 0)) = [InnerRingGroup, OuterRingGroup, InnerRingGroup])"
proof -
  have valid: "valid_memory example_memory"
    by (simp add: valid_memory_def example_memory_def example_array_def valid_slice_def)
  have p: "0 < length (structs example_memory)"
    by (simp add: example_memory_def)
  have before: "structs example_memory ! 0 =
      \<lparr>InnerRing = \<lparr>Location = - 1, Speed = - 7\<rparr>,
       MiddleRing = \<lparr>Location = 7, Speed = 7\<rparr>,
       OuterRing = \<lparr>Location = 12, Speed = - 1\<rparr>,
       RingGroups = \<lparr>array = Some 0, offset = 0, len = 3, cap = 4\<rparr>\<rparr>"
    and groups: "elems example_memory (RingGroups (structs example_memory ! 0)) =
      [InnerRingGroup, OuterRingGroup, InnerRingGroup]"
    by (simp_all add: example_memory_def example_array_def elems_def)
  from Standardize_mem_receiver_unmodified [OF valid p, of "\<lambda>c. 2 * c"]
  obtain m' r where "Standardize_mem (\<lambda>c. 2 * c) example_memory (Some 0) = Inr (m', r)"
    and "structs m' ! 0 = structs example_memory ! 0"
    and "elems m' (RingGroups (structs m' ! 0)) =
      elems example_memory (RingGroups (structs example_memory ! 0))"
    by blast
  with before groups have "\<exists>m' r. Standardize_mem (\<lambda>c. 2 * c) example_memory (Some 0) = Inr (m', r) \<and>
      InnerRing (structs m' ! 0) = \<lparr>Location = - 1, Speed = - 7\<rparr> \<and>
      MiddleRing (structs m' ! 0) = \<lparr>Location = 7, Speed = 7\<rparr> \<and>
      OuterRing (structs m' ! 0) = \<lparr>Location = 12, Speed = - 1\<rparr> \<and>
      elems m' (RingGroups (structs m' ! 0)) = [InnerRingGroup, OuterRingGroup, InnerRingGroup]"
    by auto
  with valid p show ?thesis
    by blast
qed

end
